theory Spec2Isabelle
  imports Complex_Main "HOL-Library.Log_Nat"
begin

section \<open>Clip Merger: the merge pipeline of src/App.tsx\<close>

text \<open>
  The component \<^verbatim>\<open>App\<close> merges the video files of a folder into one recording: it
  plays the clips one after the other, copies their frames to a hidden canvas, routes
  their audio to one destination node and records canvas and destination with a
  \<^verbatim>\<open>MediaRecorder\<close>. The browser is the environment of the program: it decides
  which container types are supported, which events a video element fires, and
  what the recorder delivers. The model takes these decisions as an input (\<open>env\<close>)
  and runs the handlers of the source on them, with explicit state.
\<close>

subsection \<open>Data\<close>

text \<open>\<^verbatim>\<open>interface ProcessStatus\<close> (App.tsx, lines 5-9).\<close>

datatype phase = Idle | Processing | Completed | Error

record ProcessStatus =
  state :: phase
  message :: string
  progress :: int

text \<open>A \<^verbatim>\<open>File\<close>: the pipeline reads only its name.\<close>

record File =
  name :: string

type_synonym bytes = string

text \<open>A \<^verbatim>\<open>Blob\<close> built by \<^verbatim>\<open>new Blob(chunks, { type })\<close>, and the object URL that
  \<^verbatim>\<open>URL.createObjectURL\<close> makes for it.\<close>

record Blob =
  content :: bytes
  blobType :: string

datatype url = ObjectURL Blob

text \<open>What a \<^verbatim>\<open>throw\<close> or a \<^verbatim>\<open>reject\<close> carries: a string primitive, or an
  \<^verbatim>\<open>Error\<close> (a \<^verbatim>\<open>DOMException\<close> too) with its \<^verbatim>\<open>message\<close>.\<close>

datatype js_value = JsString string | JsError string

datatype settlement = Fulfilled | RejectedWith js_value

datatype recorder_state = Inactive | Recording

datatype audio_state = Running | Closed

text \<open>
  What the browser does with one video element. \<open>CanPlay\<close> carries the two things
  the \<^verbatim>\<open>oncanplay\<close> handler asks of the browser: wiring the audio
  (\<^verbatim>\<open>createMediaElementSource\<close>, then \<^verbatim>\<open>connect\<close>) and \<^verbatim>\<open>video.play()\<close>.
  The promise of \<^verbatim>\<open>play()\<close> is taken to settle before the next event of the element is
  handled. The flag of \<open>PlayStarts\<close> and of \<open>AnimationFrame\<close> is what \<^verbatim>\<open>drawFrame\<close>
  reads: the video is neither paused nor ended. \<open>DataAvailable\<close> is the recorder's
  event, delivered while a session is awaited.
\<close>

datatype audio_result = AudioConnects | CreateSourceThrows js_value | ConnectThrows js_value

datatype play_result = PlayStarts bool | PlayRejects js_value

datatype media_event =
    LoadedMetadata nat nat
  | CanPlay audio_result play_result
  | AnimationFrame bool
  | Ended
  | MediaError
  | DataAvailable bytes

text \<open>The effects of a run, in the order the statements of the source make them.\<close>

datatype action =
    SetStatus ProcessStatus
  | ConsoleLog string
  | ConsoleWarn string js_value
  | ConsoleError js_value
  | AudioResumed
  | RecorderCreated string
  | RecorderStarted
  | RecorderStopped
  | VideoCreated nat string
  | CanvasResized nat nat nat
  | AudioConnected nat
  | FrameDrawn nat "nat \<times> nat"
  | FrameCancelled nat
  | AudioDisconnected nat
  | VideoRemoved nat
  | UrlRevoked nat
  | Resolved nat
  | Rejected nat js_value
  | DownloadUrlSet url
  | AudioClosed

text \<open>
  The environment of one run: \<^verbatim>\<open>MediaRecorder.isTypeSupported\<close>, whether
  \<^verbatim>\<open>canvasRef.current\<close> is there and gives a 2d context, whether the audio context
  starts suspended, the events of the video element of clip \<open>i\<close> (up to the one that
  settles its promise: the element is removed from the document then), whether
  \<^verbatim>\<open>processingRef.current\<close> has been cleared from outside when the loop reaches clip
  \<open>i\<close>, and the data the recorder delivers between \<^verbatim>\<open>stop()\<close> and its stop event.
  Library calls that the source does not guard are taken not to throw.
\<close>

record env =
  isTypeSupported :: "string \<Rightarrow> bool"
  canvasMounted :: bool
  context2d :: bool
  audioSuspended :: bool
  playback :: "nat \<Rightarrow> media_event list"
  userCancels :: "nat \<Rightarrow> bool"
  stopFlush :: "bytes list"

text \<open>
  The state of the component (React state and refs), the locals of
  \<^verbatim>\<open>startProcessing\<close> that its closures share (\<^verbatim>\<open>mediaRecorder\<close>, \<^verbatim>\<open>chunks\<close>,
  \<^verbatim>\<open>mimeType\<close>, \<^verbatim>\<open>dimensionsSet\<close>), the recorder's stop task when it is queued, and
  the effects made so far.
\<close>

record app =
  files :: "File list"
  status :: ProcessStatus
  downloadUrl :: "url option"
  finalMimeType :: string
  processingRef :: bool
  audioContextRef :: "audio_state option"
  canvas :: "nat \<times> nat"
  mediaRecorder :: "recorder_state option"
  chunks :: "bytes list"
  mimeType :: string
  dimensionsSet :: bool
  stopQueued :: bool
  trace :: "action list"

text \<open>The locals of one playback promise (lines 149-223): \<^verbatim>\<open>sourceNode\<close> is not
  null, a frame callback is requested (\<^verbatim>\<open>drawRequestId\<close>), \<^verbatim>\<open>video.oncanplay\<close> is
  still attached, and the state of the promise.\<close>

record session =
  sourceNode :: bool
  framePending :: bool
  oncanplay :: bool
  settled :: "settlement option"

datatype completion = Normal | Threw js_value | Hung

subsection \<open>Numbers\<close>

text \<open>
  JavaScript numbers are IEEE 754 doubles. \<open>binary64\<close> rounds a rational to the
  nearest double, ties to even, in the normal range (no overflow, no subnormals:
  the values of this program lie between \<open>2\<^sup>-\<^sup>3\<^sup>2\<close> and \<open>100\<close>). A double is
  represented by the rational it denotes.
\<close>

definition roundTiesEven :: "rat \<Rightarrow> int" where
  "roundTiesEven y =
     (let f = \<lfloor>y\<rfloor>; d = y - of_int f
      in if d < 1/2 then f else if 1/2 < d then f + 1 else if even f then f else f + 1)"

definition binade :: "rat \<Rightarrow> int" where
  "binade x =
     (let (p, q) = quotient_of x; e = bitlen p - bitlen q
      in if power_int 2 e \<le> x then e else e - 1)"

definition binary64 :: "rat \<Rightarrow> rat" where
  "binary64 x =
     (if x = 0 then 0
      else let a = \<bar>x\<bar>; ulp = power_int 2 (binade a - 52)
           in sgn x * of_int (roundTiesEven (a / ulp)) * ulp)"

definition js_div :: "rat \<Rightarrow> rat \<Rightarrow> rat" where
  "js_div x y = binary64 (x / y)"

definition js_mul :: "rat \<Rightarrow> rat \<Rightarrow> rat" where
  "js_mul x y = binary64 (x * y)"

text \<open>\<^verbatim>\<open>Math.round\<close>: the nearest integer, a tie going up.\<close>

definition Math_round :: "rat \<Rightarrow> int" where
  "Math_round x = \<lfloor>x + 1/2\<rfloor>"

text \<open>A number in a template literal: its decimal digits.\<close>

fun digits :: "nat \<Rightarrow> string" where
  "digits n =
     (if n < 10 then [''0123456789'' ! n]
      else digits (n div 10) @ [''0123456789'' ! (n mod 10)])"

subsection \<open>The format negotiator\<close>

definition PREFERRED_FORMAT :: string where
  "PREFERRED_FORMAT = ''video/mp4; codecs=\"avc1.42E01E, mp4a.40.2\"''"

definition FALLBACK_FORMAT :: string where
  "FALLBACK_FORMAT = ''video/webm; codecs=\"vp8, opus\"''"

text \<open>\<^verbatim>\<open>getSupportedMimeType\<close> (lines 62-70).\<close>

definition getSupportedMimeType :: "(string \<Rightarrow> bool) \<Rightarrow> string" where
  "getSupportedMimeType supported =
     (if supported PREFERRED_FORMAT then PREFERRED_FORMAT
      else if supported ''video/mp4'' then ''video/mp4''
      else FALLBACK_FORMAT)"

text \<open>The negotiator as the specification words it: the first supported entry of
  the preference list, and the fallback when none is.\<close>

definition preferenceList :: "string list" where
  "preferenceList = [PREFERRED_FORMAT, ''video/mp4'', FALLBACK_FORMAT]"

definition negotiateSpec :: "(string \<Rightarrow> bool) \<Rightarrow> string" where
  "negotiateSpec supported =
     (case find supported preferenceList of Some t \<Rightarrow> t | None \<Rightarrow> FALLBACK_FORMAT)"

subsection \<open>Setting state\<close>

definition emit :: "action \<Rightarrow> app \<Rightarrow> app" where
  "emit a s = s\<lparr>trace := trace s @ [a]\<rparr>"

definition setStatus :: "ProcessStatus \<Rightarrow> app \<Rightarrow> app" where
  "setStatus st s = emit (SetStatus st) (s\<lparr>status := st\<rparr>)"

text \<open>The status of the clip-start boundary (lines 143-147):
  \<^verbatim>\<open>progress: Math.round((i / files.length) * 100)\<close>.\<close>

definition clipProgress :: "nat \<Rightarrow> nat \<Rightarrow> int" where
  "clipProgress i n = Math_round (js_mul (js_div (of_nat i) (of_nat n)) 100)"

definition clipStatus :: "File list \<Rightarrow> nat \<Rightarrow> ProcessStatus" where
  "clipStatus fs i =
     \<lparr>state = Processing,
      message = ''Processing clip '' @ digits (i + 1) @ ''/'' @ digits (length fs) @ '': ''
                @ name (fs ! i),
      progress = clipProgress i (length fs)\<rparr>"

subsection \<open>One playback session\<close>

definition newSession :: session where
  "newSession = \<lparr>sourceNode = False, framePending = False, oncanplay = True, settled = None\<rparr>"

text \<open>\<^verbatim>\<open>resolve\<close> and \<^verbatim>\<open>reject\<close>: a promise settles once.\<close>

definition resolve :: "nat \<Rightarrow> session \<times> app \<Rightarrow> session \<times> app" where
  "resolve i = (\<lambda>(se, s).
     if settled se = None then (se\<lparr>settled := Some Fulfilled\<rparr>, emit (Resolved i) s)
     else (se, s))"

definition reject :: "nat \<Rightarrow> js_value \<Rightarrow> session \<times> app \<Rightarrow> session \<times> app" where
  "reject i e = (\<lambda>(se, s).
     if settled se = None then (se\<lparr>settled := Some (RejectedWith e)\<rparr>, emit (Rejected i e) s)
     else (se, s))"

text \<open>\<^verbatim>\<open>video.onloadedmetadata\<close> (lines 166-175).\<close>

definition onloadedmetadata :: "nat \<Rightarrow> nat \<Rightarrow> nat \<Rightarrow> app \<Rightarrow> app" where
  "onloadedmetadata i w h s =
     (if \<not> dimensionsSet s
      then emit (CanvasResized i w h) (s\<lparr>canvas := (w, h), dimensionsSet := True\<rparr>)
      else s)"

text \<open>\<^verbatim>\<open>cleanup\<close> (lines 177-184).\<close>

definition cleanup :: "nat \<Rightarrow> session \<times> app \<Rightarrow> session \<times> app" where
  "cleanup i = (\<lambda>(se, s).
     let s1 = emit (FrameCancelled i) s;
         s2 = (if sourceNode se then emit (AudioDisconnected i) s1 else s1);
         s3 = emit (VideoRemoved i) s2;
         s4 = emit (UrlRevoked i) s3
     in (se\<lparr>framePending := False\<rparr>, s4))"

text \<open>\<^verbatim>\<open>drawFrame\<close> (lines 207-212). It runs after \<^verbatim>\<open>play()\<close> and as the frame
  callback; either way no callback is requested when it starts, and one is requested
  when it has drawn.\<close>

definition drawFrame :: "nat \<Rightarrow> bool \<Rightarrow> session \<times> app \<Rightarrow> session \<times> app" where
  "drawFrame i playing = (\<lambda>(se, s).
     if \<not> playing then (se\<lparr>framePending := False\<rparr>, s)
     else (se\<lparr>framePending := True\<rparr>, emit (FrameDrawn i (canvas s)) s))"

text \<open>The audio wiring of \<^verbatim>\<open>video.oncanplay\<close> (lines 190-196): a failure is
  caught and warned about.\<close>

definition connectAudio :: "nat \<Rightarrow> audio_result \<Rightarrow> session \<times> app \<Rightarrow> session \<times> app" where
  "connectAudio i a = (\<lambda>(se, s).
     case a of
       AudioConnects \<Rightarrow> (se\<lparr>sourceNode := True\<rparr>, emit (AudioConnected i) s)
     | CreateSourceThrows e \<Rightarrow> (se, emit (ConsoleWarn ''Audio source creation failed:'' e) s)
     | ConnectThrows e \<Rightarrow>
         (se\<lparr>sourceNode := True\<rparr>, emit (ConsoleWarn ''Audio source creation failed:'' e) s))"

text \<open>\<^verbatim>\<open>video.oncanplay\<close> (lines 186-205).\<close>

definition oncanplayHandler ::
  "nat \<Rightarrow> audio_result \<Rightarrow> play_result \<Rightarrow> session \<times> app \<Rightarrow> session \<times> app" where
  "oncanplayHandler i a p = (\<lambda>(se, s).
     if \<not> oncanplay se then (se, s)
     else let x = connectAudio i a (se\<lparr>oncanplay := False\<rparr>, s)
          in case p of
               PlayStarts playing \<Rightarrow> drawFrame i playing x
             | PlayRejects err \<Rightarrow> reject i err (cleanup i x))"

text \<open>\<^verbatim>\<open>video.onended\<close> (lines 214-217) and \<^verbatim>\<open>video.onerror\<close> (lines 219-222).\<close>

definition onended :: "nat \<Rightarrow> session \<times> app \<Rightarrow> session \<times> app" where
  "onended i x = resolve i (cleanup i x)"

definition onerror :: "nat \<Rightarrow> File \<Rightarrow> session \<times> app \<Rightarrow> session \<times> app" where
  "onerror i f x = reject i (JsString (''Error playing file '' @ name f)) (cleanup i x)"

text \<open>\<^verbatim>\<open>mediaRecorder.ondataavailable\<close> (lines 119-121).\<close>

definition ondataavailable :: "bytes \<Rightarrow> app \<Rightarrow> app" where
  "ondataavailable d s = (if length d > 0 then s\<lparr>chunks := chunks s @ [d]\<rparr> else s)"

text \<open>One event of the browser, given to its handler. A frame callback runs only
  when one is requested.\<close>

definition dispatch :: "nat \<Rightarrow> File \<Rightarrow> media_event \<Rightarrow> session \<times> app \<Rightarrow> session \<times> app" where
  "dispatch i f ev = (\<lambda>(se, s).
     case ev of
       LoadedMetadata w h \<Rightarrow> (se, onloadedmetadata i w h s)
     | CanPlay a p \<Rightarrow> oncanplayHandler i a p (se, s)
     | AnimationFrame playing \<Rightarrow> (if framePending se then drawFrame i playing (se, s) else (se, s))
     | Ended \<Rightarrow> onended i (se, s)
     | MediaError \<Rightarrow> onerror i f (se, s)
     | DataAvailable d \<Rightarrow> (se, ondataavailable d s))"

text \<open>\<^verbatim>\<open>await new Promise(...)\<close>: events are handled until the promise settles.
  When the events end with the promise pending, the \<^verbatim>\<open>await\<close> never returns.\<close>

fun awaitSession :: "nat \<Rightarrow> File \<Rightarrow> media_event list \<Rightarrow> session \<times> app \<Rightarrow> session \<times> app" where
  "awaitSession i f [] x = x"
| "awaitSession i f (ev # evs) x =
     (if settled (fst x) = None then awaitSession i f evs (dispatch i f ev x) else x)"

text \<open>The executor of the promise (lines 149-164): a new video element for the clip.\<close>

definition playClip :: "nat \<Rightarrow> File \<Rightarrow> media_event list \<Rightarrow> app \<Rightarrow> session \<times> app" where
  "playClip i f evs s = awaitSession i f evs (newSession, emit (VideoCreated i (name f)) s)"

subsection \<open>The run\<close>

text \<open>What the environment does to \<^verbatim>\<open>processingRef\<close> before the loop reads it.\<close>

definition atBoundary :: "env \<Rightarrow> nat \<Rightarrow> app \<Rightarrow> app" where
  "atBoundary e i s = (if userCancels e i then s\<lparr>processingRef := False\<rparr> else s)"

text \<open>The sequential processing loop (lines 139-224). \<^verbatim>\<open>files\<close> is the array the
  closure captured.\<close>

function processClips :: "env \<Rightarrow> File list \<Rightarrow> nat \<Rightarrow> app \<Rightarrow> completion \<times> app" where
  "processClips e fs i s =
     (if i < length fs then
        let s0 = atBoundary e i s in
        if \<not> processingRef s0 then (Normal, s0)
        else let x = playClip i (fs ! i) (playback e i) (setStatus (clipStatus fs i) s0)
             in case settled (fst x) of
                  None \<Rightarrow> (Hung, snd x)
                | Some Fulfilled \<Rightarrow> processClips e fs (Suc i) (snd x)
                | Some (RejectedWith err) \<Rightarrow> (Threw err, snd x)
      else (Normal, s))"
  by pat_completeness auto
termination
  by (relation "measure (\<lambda>(e, fs, i, s). length fs - i)") auto

text \<open>\<^verbatim>\<open>mediaRecorder.stop()\<close>: the recorder is inactive at once, its data and its
  stop event come in a later task.\<close>

definition recorderStop :: "app \<Rightarrow> app" where
  "recorderStop s = emit RecorderStopped (s\<lparr>mediaRecorder := Some Inactive, stopQueued := True\<rparr>)"

text \<open>The start of the \<^verbatim>\<open>try\<close> (lines 81-96): the type is negotiated and the
  audio context is made (and resumed when it starts suspended).\<close>

definition setupAudio :: "env \<Rightarrow> app \<Rightarrow> app" where
  "setupAudio e s =
     (let mt = getSupportedMimeType (isTypeSupported e);
          s1 = emit (ConsoleLog (''Using format: '' @ mt)) (s\<lparr>finalMimeType := mt, mimeType := mt\<rparr>);
          s2 = s1\<lparr>audioContextRef := Some Running\<rparr>
      in if audioSuspended e then emit AudioResumed s2 else s2)"

text \<open>The recorder is made and started (lines 113-136).\<close>

definition startRecorder :: "app \<Rightarrow> app" where
  "startRecorder s =
     (let s4 = emit (RecorderCreated (mimeType s)) (s\<lparr>mediaRecorder := Some Inactive, chunks := []\<rparr>);
          s5 = emit RecorderStarted (s4\<lparr>mediaRecorder := Some Recording\<rparr>)
      in s5\<lparr>dimensionsSet := False\<rparr>)"

text \<open>The body of the \<^verbatim>\<open>try\<close> (lines 81-229).\<close>

definition tryBody :: "env \<Rightarrow> app \<Rightarrow> completion \<times> app" where
  "tryBody e s =
     (let s3 = setupAudio e s
      in if \<not> context2d e then (Threw (JsError ''Could not get canvas context''), s3)
         else let r = processClips e (files s3) 0 (startRecorder s3)
              in case fst r of
                   Normal \<Rightarrow>
                     (Normal, if mediaRecorder (snd r) \<noteq> Some Inactive then recorderStop (snd r)
                              else snd r)
                 | c \<Rightarrow> (c, snd r))"

text \<open>\<^verbatim>\<open>error.message || 'Unknown error'\<close>: a string has no \<^verbatim>\<open>message\<close>, and an
  empty message is falsy.\<close>

definition errorMessage :: "js_value \<Rightarrow> string" where
  "errorMessage v = (case v of JsString t \<Rightarrow> ''Unknown error''
                      | JsError m \<Rightarrow> (if m = [] then ''Unknown error'' else m))"

text \<open>The \<^verbatim>\<open>catch\<close> (lines 231-238).\<close>

definition catchHandler :: "js_value \<Rightarrow> app \<Rightarrow> app" where
  "catchHandler err s =
     (let s1 = emit (ConsoleError err) s;
          s2 = setStatus \<lparr>state = Error, message = ''Error: '' @ errorMessage err, progress = 0\<rparr> s1;
          s3 = s2\<lparr>processingRef := False\<rparr>
      in if mediaRecorder s3 \<noteq> None \<and> mediaRecorder s3 \<noteq> Some Inactive then recorderStop s3
         else s3)"

text \<open>The statements before the \<^verbatim>\<open>try\<close> (lines 75-78).\<close>

definition beginRun :: "app \<Rightarrow> app" where
  "beginRun st =
     (setStatus \<lparr>state = Processing, message = ''Initializing processing engine...'', progress = 0\<rparr>
        (st\<lparr>processingRef := True\<rparr>))
     \<lparr>mediaRecorder := None, stopQueued := False\<rparr>"

text \<open>\<^verbatim>\<open>startProcessing\<close> (lines 72-239), up to the point where it returns or
  waits for ever.\<close>

definition startProcessing :: "env \<Rightarrow> app \<Rightarrow> app" where
  "startProcessing e st =
     (if length (files st) = 0 \<or> \<not> canvasMounted e then st
      else let r = tryBody e (beginRun st)
           in case fst r of Threw err \<Rightarrow> catchHandler err (snd r) | c \<Rightarrow> snd r)"

text \<open>\<^verbatim>\<open>mediaRecorder.onstop\<close> (lines 123-132).\<close>

definition onstop :: "app \<Rightarrow> app" where
  "onstop s =
     (let u = ObjectURL \<lparr>content = concat (chunks s), blobType = mimeType s\<rparr>;
          s1 = emit (DownloadUrlSet u) (s\<lparr>downloadUrl := Some u\<rparr>);
          s2 = setStatus \<lparr>state = Completed, message = ''Processing complete!'', progress = 100\<rparr> s1;
          s3 = s2\<lparr>processingRef := False\<rparr>
      in if audioContextRef s3 \<noteq> Some Closed
         then emit AudioClosed (s3\<lparr>audioContextRef := Some Closed\<rparr>) else s3)"

text \<open>The task \<^verbatim>\<open>stop()\<close> queued: the data gathered, then the stop event.\<close>

definition deliverStop :: "env \<Rightarrow> app \<Rightarrow> app" where
  "deliverStop e s =
     (if stopQueued s
      then onstop (fold ondataavailable (stopFlush e) (s\<lparr>stopQueued := False\<rparr>))
      else s)"

text \<open>A run: \<^verbatim>\<open>startProcessing\<close> and the tasks it left behind. The result is the
  state the user ends up looking at.\<close>

definition run :: "env \<Rightarrow> app \<Rightarrow> app" where
  "run e st = deliverStop e (startProcessing e st)"

text \<open>The state of the component when it mounts (lines 12-21); a canvas is 300 by
  150 until it is resized.\<close>

definition initialApp :: "File list \<Rightarrow> app" where
  "initialApp fs =
     \<lparr>files = fs, status = \<lparr>state = Idle, message = [], progress = 0\<rparr>, downloadUrl = None,
      finalMimeType = [], processingRef = False, audioContextRef = None, canvas = (300, 150),
      mediaRecorder = None, chunks = [], mimeType = [], dimensionsSet = False,
      stopQueued = False, trace = []\<rparr>"

subsection \<open>Observations\<close>

text \<open>
  What the properties are stated with. \<open>loopStart\<close> is the state in which the loop is
  entered, \<open>afterClip\<close> the state after one turn of the loop, \<open>caught\<close> the state the
  \<^verbatim>\<open>catch\<close> leaves before it looks at the recorder. How the promise of clip \<open>i\<close>
  settles and whether its session had an audio source depend on the events of the clip
  only, so they are read off a session played on the initial state. \<open>sameRun\<close> lists
  what a playback session never touches. The predicates on effects pick out what a
  property is about; \<open>sessionLife\<close> is the life of one session as the specification
  words it: created, then torn down and settled.
\<close>

definition loopStart :: "env \<Rightarrow> app \<Rightarrow> app" where
  "loopStart e st = startRecorder (setupAudio e (beginRun st))"

definition clipOutcome :: "env \<Rightarrow> File list \<Rightarrow> nat \<Rightarrow> settlement option" where
  "clipOutcome e fs i = settled (fst (playClip i (fs ! i) (playback e i) (initialApp fs)))"


definition afterClip :: "env \<Rightarrow> File list \<Rightarrow> nat \<Rightarrow> app \<Rightarrow> app" where
  "afterClip e fs i s =
     snd (playClip i (fs ! i) (playback e i) (setStatus (clipStatus fs i) (atBoundary e i s)))"

definition sameRun :: "app \<Rightarrow> app \<Rightarrow> bool" where
  "sameRun s s' \<longleftrightarrow>
     processingRef s' = processingRef s \<and> mediaRecorder s' = mediaRecorder s
     \<and> status s' = status s \<and> downloadUrl s' = downloadUrl s \<and> stopQueued s' = stopQueued s
     \<and> mimeType s' = mimeType s \<and> finalMimeType s' = finalMimeType s
     \<and> audioContextRef s' = audioContextRef s \<and> files s' = files s"






definition teardown :: "nat \<Rightarrow> bool \<Rightarrow> action list" where
  "teardown i hadSource =
     [FrameCancelled i] @ (if hadSource then [AudioDisconnected i] else [])
     @ [VideoRemoved i, UrlRevoked i]"






definition caught :: "js_value \<Rightarrow> app \<Rightarrow> app" where
  "caught err s =
     (setStatus \<lparr>state = Error, message = ''Error: '' @ errorMessage err, progress = 0\<rparr>
        (emit (ConsoleError err) s))\<lparr>processingRef := False\<rparr>"



fun withAudio :: "audio_result \<Rightarrow> media_event \<Rightarrow> media_event" where
  "withAudio a (CanPlay b p) = CanPlay a p"
| "withAudio a ev = ev"

fun assignsSource :: "audio_result \<Rightarrow> bool" where
  "assignsSource AudioConnects = True"
| "assignsSource (CreateSourceThrows v) = False"
| "assignsSource (ConnectThrows v) = True"

fun audioEffect :: "nat \<Rightarrow> audio_result \<Rightarrow> action" where
  "audioEffect i AudioConnects = AudioConnected i"
| "audioEffect i (CreateSourceThrows v) = ConsoleWarn ''Audio source creation failed:'' v"
| "audioEffect i (ConnectThrows v) = ConsoleWarn ''Audio source creation failed:'' v"

text \<open>The environment with the audio wiring of every clip replaced by \<open>a\<close>, and what two
  sessions share when they differ in their audio source only.\<close>

definition audioReplaced :: "audio_result \<Rightarrow> env \<Rightarrow> env" where
  "audioReplaced a e = e\<lparr>playback := (\<lambda>i. map (withAudio a) (playback e i))\<rparr>"

definition sameControl :: "session \<Rightarrow> session \<Rightarrow> bool" where
  "sameControl se se' \<longleftrightarrow>
     framePending se' = framePending se \<and> oncanplay se' = oncanplay se \<and> settled se' = settled se"

subsection \<open>Example inputs\<close>

text \<open>A clip that plays to its end, a clip whose element fires \<^verbatim>\<open>error\<close>, and a
  clip whose \<^verbatim>\<open>play()\<close> is refused.\<close>

definition playsThrough :: "nat \<Rightarrow> nat \<Rightarrow> media_event list" where
  "playsThrough w h =
     [LoadedMetadata w h, CanPlay AudioConnects (PlayStarts True), AnimationFrame True,
      DataAvailable ''frames'', AnimationFrame False, Ended]"

definition failsToDecode :: "media_event list" where
  "failsToDecode = [MediaError]"


definition browser :: "(nat \<Rightarrow> media_event list) \<Rightarrow> (nat \<Rightarrow> bool) \<Rightarrow> env" where
  "browser pb cancels =
     \<lparr>isTypeSupported = (\<lambda>t. t = ''video/mp4''), canvasMounted = True, context2d = True,
      audioSuspended = False, playback = pb, userCancels = cancels, stopFlush = [''tail'']\<rparr>"

definition clipA :: File where
  "clipA = \<lparr>name = ''a.mp4''\<rparr>"

definition clipB :: File where
  "clipB = \<lparr>name = ''b.mp4''\<rparr>"

definition clipC :: File where
  "clipC = \<lparr>name = ''c.mp4''\<rparr>"

section \<open>Lemmas\<close>

declare processClips.simps [simp del]

subsection \<open>What each handler does to the session and to the effects\<close>

lemma sameRun_refl: "sameRun s s"
  by (simp add: sameRun_def)

lemma sameRun_trans: "sameRun s s' \<Longrightarrow> sameRun s' s'' \<Longrightarrow> sameRun s s''"
  by (simp add: sameRun_def)

lemma fst_cleanup: "fst (cleanup i x) = (fst x)\<lparr>framePending := False\<rparr>"
  by (cases x) (simp add: cleanup_def Let_def)

lemma trace_cleanup: "trace (snd (cleanup i x)) = trace (snd x) @ teardown i (sourceNode (fst x))"
  by (cases x) (simp add: cleanup_def Let_def emit_def teardown_def)

lemma sameRun_cleanup: "sameRun (snd x) (snd (cleanup i x))"
  by (cases x) (simp add: cleanup_def Let_def emit_def sameRun_def)

lemma fst_resolve:
  "fst (resolve i x) = (if settled (fst x) = None then (fst x)\<lparr>settled := Some Fulfilled\<rparr> else fst x)"
  by (cases x) (simp add: resolve_def)

lemma trace_resolve:
  "trace (snd (resolve i x)) = trace (snd x) @ (if settled (fst x) = None then [Resolved i] else [])"
  by (cases x) (simp add: resolve_def emit_def)

lemma sameRun_resolve: "sameRun (snd x) (snd (resolve i x))"
  by (cases x) (simp add: resolve_def emit_def sameRun_def)

lemma fst_reject:
  "fst (reject i v x) =
     (if settled (fst x) = None then (fst x)\<lparr>settled := Some (RejectedWith v)\<rparr> else fst x)"
  by (cases x) (simp add: reject_def)

lemma trace_reject:
  "trace (snd (reject i v x)) = trace (snd x) @ (if settled (fst x) = None then [Rejected i v] else [])"
  by (cases x) (simp add: reject_def emit_def)

lemma sameRun_reject: "sameRun (snd x) (snd (reject i v x))"
  by (cases x) (simp add: reject_def emit_def sameRun_def)

lemma fst_drawFrame: "fst (drawFrame i playing x) = (fst x)\<lparr>framePending := playing\<rparr>"
  by (cases x) (simp add: drawFrame_def)

lemma trace_drawFrame:
  "trace (snd (drawFrame i playing x)) =
     trace (snd x) @ (if playing then [FrameDrawn i (canvas (snd x))] else [])"
  by (cases x) (simp add: drawFrame_def emit_def)

lemma sameRun_drawFrame: "sameRun (snd x) (snd (drawFrame i playing x))"
  by (cases x) (simp add: drawFrame_def emit_def sameRun_def)

lemma fst_connectAudio:
  "fst (connectAudio i a x) = (fst x)\<lparr>sourceNode := assignsSource a \<or> sourceNode (fst x)\<rparr>"
  by (cases x; cases a) (simp_all add: connectAudio_def)

lemma trace_connectAudio:
  "trace (snd (connectAudio i a x)) = trace (snd x) @ [audioEffect i a]"
  by (cases x; cases a) (simp_all add: connectAudio_def emit_def)

lemma sameRun_connectAudio: "sameRun (snd x) (snd (connectAudio i a x))"
  by (cases x) (simp add: connectAudio_def emit_def sameRun_def split: audio_result.splits)

lemmas fst_handlers = fst_cleanup fst_resolve fst_reject fst_drawFrame fst_connectAudio
lemmas trace_handlers = trace_cleanup trace_resolve trace_reject trace_drawFrame trace_connectAudio

lemma sameRun_oncanplayHandler: "sameRun (snd x) (snd (oncanplayHandler i a p x))"
proof (cases x)
  case (Pair se s)
  have c: "sameRun s (snd (connectAudio i a (se\<lparr>oncanplay := False\<rparr>, s)))"
    using sameRun_connectAudio [of "(se\<lparr>oncanplay := False\<rparr>, s)"] by simp
  show ?thesis
  proof (cases p)
    case (PlayStarts playing)
    then show ?thesis
      using Pair sameRun_trans [OF c sameRun_drawFrame]
      by (simp add: oncanplayHandler_def Let_def sameRun_refl)
  next
    case (PlayRejects err)
    then show ?thesis
      using Pair sameRun_trans [OF c sameRun_trans [OF sameRun_cleanup sameRun_reject]]
      by (simp add: oncanplayHandler_def Let_def sameRun_refl)
  qed
qed

lemma dispatch_sameRun: "sameRun (snd x) (snd (dispatch i f ev x))"
proof (cases x)
  case (Pair se s)
  show ?thesis
  proof (cases ev)
    case (LoadedMetadata w h)
    then show ?thesis using Pair
      by (simp add: dispatch_def onloadedmetadata_def emit_def sameRun_def)
  next
    case (CanPlay a p)
    then show ?thesis using Pair sameRun_oncanplayHandler [of "(se, s)"]
      by (simp add: dispatch_def)
  next
    case (AnimationFrame playing)
    then show ?thesis using Pair sameRun_drawFrame [of "(se, s)"]
      by (simp add: dispatch_def sameRun_refl)
  next
    case Ended
    then show ?thesis using Pair sameRun_trans [OF sameRun_cleanup sameRun_resolve, of "(se, s)"]
      by (simp add: dispatch_def onended_def)
  next
    case MediaError
    then show ?thesis using Pair sameRun_trans [OF sameRun_cleanup sameRun_reject, of "(se, s)"]
      by (simp add: dispatch_def onerror_def)
  next
    case (DataAvailable d)
    then show ?thesis using Pair
      by (simp add: dispatch_def ondataavailable_def sameRun_def)
  qed
qed

text \<open>The session after an event depends on the session before and on the event, not on
  the rest of the state.\<close>

lemma fst_oncanplayHandler:
  "fst (oncanplayHandler i a p (se, s)) = fst (oncanplayHandler i a p (se, s'))"
  by (simp add: oncanplayHandler_def Let_def fst_handlers split: play_result.splits)

lemma dispatch_session:
  "fst (dispatch i f ev (se, s)) = fst (dispatch i f ev (se, s'))"
  by (cases ev)
     (simp_all add: dispatch_def onended_def onerror_def fst_handlers fst_oncanplayHandler [of _ _ _ se s s'])


lemma awaitSession_sameRun: "sameRun (snd x) (snd (awaitSession i f evs x))"
proof (induction evs arbitrary: x)
  case Nil
  show ?case by (simp add: sameRun_refl)
next
  case (Cons ev evs)
  show ?case
    using sameRun_trans [OF dispatch_sameRun Cons.IH] by (simp add: sameRun_refl)
qed

lemma awaitSession_session:
  "fst (awaitSession i f evs (se, s)) = fst (awaitSession i f evs (se, s'))"
proof (induction evs arbitrary: se s s')
  case Nil
  show ?case by simp
next
  case (Cons ev evs)
  obtain se1 s1 where a: "dispatch i f ev (se, s) = (se1, s1)" by (cases "dispatch i f ev (se, s)")
  obtain se2 s2 where b: "dispatch i f ev (se, s') = (se2, s2)" by (cases "dispatch i f ev (se, s')")
  have "se1 = se2" using dispatch_session [of i f ev se s s'] a b by simp
  then show ?case using Cons.IH [of se1 s1 s2] a b by simp
qed

lemma playClip_sameRun: "sameRun s (snd (playClip i f evs s))"
  using awaitSession_sameRun [of "(newSession, emit (VideoCreated i (name f)) s)" i f evs]
  by (simp add: playClip_def sameRun_def emit_def)

lemma playClip_outcome:
  "settled (fst (playClip i (fs ! i) (playback e i) s)) = clipOutcome e fs i"
  unfolding playClip_def clipOutcome_def
  by (rule arg_cong [where f = settled], rule awaitSession_session)


subsection \<open>The loop, one step at a time\<close>

lemma processClips_done: "\<not> i < length fs \<Longrightarrow> processClips e fs i s = (Normal, s)"
  by (subst processClips.simps) simp

lemma processClips_break:
  "i < length fs \<Longrightarrow> \<not> processingRef (atBoundary e i s)
   \<Longrightarrow> processClips e fs i s = (Normal, atBoundary e i s)"
  by (subst processClips.simps) simp

lemma processClips_step:
  "i < length fs \<Longrightarrow> processingRef (atBoundary e i s)
   \<Longrightarrow> processClips e fs i s =
       (case clipOutcome e fs i of
          None \<Rightarrow> (Hung, afterClip e fs i s)
        | Some Fulfilled \<Rightarrow> processClips e fs (Suc i) (afterClip e fs i s)
        | Some (RejectedWith err) \<Rightarrow> (Threw err, afterClip e fs i s))"
  by (subst processClips.simps)
     (simp add: Let_def playClip_outcome afterClip_def split: option.splits settlement.splits)

lemma afterClip_sameRun:
  "processingRef (afterClip e fs i s) = processingRef (atBoundary e i s)
   \<and> mediaRecorder (afterClip e fs i s) = mediaRecorder s
   \<and> mimeType (afterClip e fs i s) = mimeType s
   \<and> audioContextRef (afterClip e fs i s) = audioContextRef s
   \<and> downloadUrl (afterClip e fs i s) = downloadUrl s
   \<and> files (afterClip e fs i s) = files s"
  using playClip_sameRun [of "setStatus (clipStatus fs i) (atBoundary e i s)" i "fs ! i" "playback e i"]
  by (simp add: afterClip_def sameRun_def setStatus_def emit_def atBoundary_def)

text \<open>The loop leaves the recorder, the negotiated type and the audio context as they are.\<close>

lemma processClips_keeps:
  "mediaRecorder (snd (processClips e fs i s)) = mediaRecorder s
   \<and> mimeType (snd (processClips e fs i s)) = mimeType s
   \<and> audioContextRef (snd (processClips e fs i s)) = audioContextRef s
   \<and> downloadUrl (snd (processClips e fs i s)) = downloadUrl s
   \<and> files (snd (processClips e fs i s)) = files s"
proof (induction "length fs - i" arbitrary: i s)
  case 0
  then show ?case by (simp add: processClips_done)
next
  case (Suc n)
  then have lt: "i < length fs" and n: "n = length fs - Suc i" by simp_all
  show ?case
  proof (cases "processingRef (atBoundary e i s)")
    case False
    then show ?thesis using lt by (simp add: processClips_break atBoundary_def)
  next
    case True
    show ?thesis
      using Suc.hyps(1) [OF n, of "afterClip e fs i s"] afterClip_sameRun [of e fs i s]
      by (simp add: processClips_step [OF lt True] split: option.splits settlement.splits)
  qed
qed


subsection \<open>Before and after the loop\<close>

lemma fold_ondataavailable:
  "fold ondataavailable ds s = s\<lparr>chunks := chunks s @ filter (\<lambda>d. 0 < length d) ds\<rparr>"
  by (induction ds arbitrary: s) (simp_all add: ondataavailable_def)

lemma setupAudio_fields:
  "files (setupAudio e s) = files s \<and> processingRef (setupAudio e s) = processingRef s
   \<and> mimeType (setupAudio e s) = getSupportedMimeType (isTypeSupported e)
   \<and> audioContextRef (setupAudio e s) = Some Running
   \<and> mediaRecorder (setupAudio e s) = mediaRecorder s
   \<and> status (setupAudio e s) = status s"
  by (simp add: setupAudio_def Let_def emit_def)

lemma startRecorder_fields:
  "files (startRecorder s) = files s \<and> processingRef (startRecorder s) = processingRef s
   \<and> mimeType (startRecorder s) = mimeType s
   \<and> audioContextRef (startRecorder s) = audioContextRef s
   \<and> mediaRecorder (startRecorder s) = Some Recording
   \<and> status (startRecorder s) = status s
   \<and> dimensionsSet (startRecorder s) = False"
  by (simp add: startRecorder_def Let_def emit_def)


lemma trace_deliverStop_recorderStop:
  "\<exists>u. trace (deliverStop e (recorderStop s)) =
     trace s @ [RecorderStopped, DownloadUrlSet u,
                SetStatus \<lparr>state = Completed, message = ''Processing complete!'', progress = 100\<rparr>]
     @ (if audioContextRef s \<noteq> Some Closed then [AudioClosed] else [])"
  by (simp add: deliverStop_def recorderStop_def onstop_def fold_ondataavailable Let_def
      setStatus_def emit_def)


lemma beginRun_fields:
  "files (beginRun st) = files st \<and> processingRef (beginRun st)"
  by (simp add: beginRun_def setStatus_def emit_def)

lemma loopStart_fields:
  "files (loopStart e st) = files st \<and> processingRef (loopStart e st)
   \<and> mimeType (loopStart e st) = getSupportedMimeType (isTypeSupported e)
   \<and> audioContextRef (loopStart e st) = Some Running
   \<and> mediaRecorder (loopStart e st) = Some Recording
   \<and> dimensionsSet (loopStart e st) = False"
  using startRecorder_fields [of "setupAudio e (beginRun st)"] setupAudio_fields [of e "beginRun st"]
    beginRun_fields [of st]
  by (simp add: loopStart_def)


subsection \<open>The life of a session\<close>



lemma oncanplayHandler_detached:
  "\<not> oncanplay (fst x) \<Longrightarrow> oncanplayHandler i a p x = x"
  by (cases x) (simp add: oncanplayHandler_def)

lemma oncanplayHandler_starts:
  "oncanplay (fst x) \<Longrightarrow> oncanplayHandler i a (PlayStarts playing) x =
     drawFrame i playing (connectAudio i a ((fst x)\<lparr>oncanplay := False\<rparr>, snd x))"
  by (cases x) (simp add: oncanplayHandler_def)

lemma oncanplayHandler_rejects:
  "oncanplay (fst x) \<Longrightarrow> oncanplayHandler i a (PlayRejects err) x =
     reject i err (cleanup i (connectAudio i a ((fst x)\<lparr>oncanplay := False\<rparr>, snd x)))"
  by (cases x) (simp add: oncanplayHandler_def)





lemma afterClip_stopQueued: "stopQueued (afterClip e fs i s) = stopQueued s"
  using playClip_sameRun [of "setStatus (clipStatus fs i) (atBoundary e i s)" i "fs ! i" "playback e i"]
  by (simp add: afterClip_def sameRun_def setStatus_def emit_def atBoundary_def)

lemma processClips_stopQueued: "stopQueued (snd (processClips e fs i s)) = stopQueued s"
proof (induction "length fs - i" arbitrary: i s)
  case 0
  then show ?case by (simp add: processClips_done)
next
  case (Suc n)
  then have lt: "i < length fs" and n: "n = length fs - Suc i" by simp_all
  show ?case
  proof (cases "processingRef (atBoundary e i s)")
    case False
    then show ?thesis using lt by (simp add: processClips_break atBoundary_def)
  next
    case True
    show ?thesis
      using Suc.hyps(1) [OF n, of "afterClip e fs i s"] afterClip_stopQueued [of e fs i s]
      by (simp add: processClips_step [OF lt True] split: option.splits settlement.splits)
  qed
qed

subsection \<open>The paths of a run\<close>

lemma catchHandler_caught:
  "catchHandler err s =
     (if mediaRecorder s \<noteq> None \<and> mediaRecorder s \<noteq> Some Inactive then recorderStop (caught err s)
      else caught err s)"
  by (simp add: catchHandler_def caught_def Let_def setStatus_def emit_def)



lemma tryBody_loop:
  assumes "context2d e"
  shows "tryBody e (beginRun st) =
     (case fst (processClips e (files st) 0 (loopStart e st)) of
        Normal \<Rightarrow> (Normal, recorderStop (snd (processClips e (files st) 0 (loopStart e st))))
      | c \<Rightarrow> (c, snd (processClips e (files st) 0 (loopStart e st))))"
proof -
  have f3: "files (setupAudio e (beginRun st)) = files st"
    using setupAudio_fields [of e "beginRun st"] beginRun_fields [of st] by simp
  have rec: "mediaRecorder (snd (processClips e (files st) 0 (loopStart e st))) = Some Recording"
    using processClips_keeps [of e "files st" 0 "loopStart e st"] loopStart_fields [of e st]
    by simp
  show ?thesis
    using assms rec by (simp add: tryBody_def Let_def f3 loopStart_def split: completion.splits)
qed













subsection \<open>Effects that no playback session makes\<close>










subsection \<open>The size of the canvas\<close>






lemma canvas_handlers:
  "canvas (snd (cleanup i x)) = canvas (snd x) \<and> dimensionsSet (snd (cleanup i x)) = dimensionsSet (snd x)"
  "canvas (snd (resolve i x)) = canvas (snd x) \<and> dimensionsSet (snd (resolve i x)) = dimensionsSet (snd x)"
  "canvas (snd (reject i v x)) = canvas (snd x) \<and> dimensionsSet (snd (reject i v x)) = dimensionsSet (snd x)"
  "canvas (snd (drawFrame i playing x)) = canvas (snd x)
   \<and> dimensionsSet (snd (drawFrame i playing x)) = dimensionsSet (snd x)"
  "canvas (snd (connectAudio i a x)) = canvas (snd x)
   \<and> dimensionsSet (snd (connectAudio i a x)) = dimensionsSet (snd x)"
  by (cases x; simp add: cleanup_def resolve_def reject_def drawFrame_def connectAudio_def Let_def
      emit_def split: audio_result.splits)+










subsection \<open>Audio wiring and the control of a session\<close>

lemma dispatch_sameControl:
  assumes "sameControl se se'"
  shows "sameControl (fst (dispatch i f (withAudio a ev) (se, s))) (fst (dispatch i f ev (se', s')))"
proof (cases ev)
  case (LoadedMetadata w h)
  then show ?thesis using assms by (simp add: dispatch_def)
next
  case (CanPlay b p)
  show ?thesis
  proof (cases "oncanplay se")
    case False
    then show ?thesis using assms CanPlay
      by (simp add: dispatch_def oncanplayHandler_detached sameControl_def)
  next
    case True
    then have t: "oncanplay se'" using assms by (simp add: sameControl_def)
    show ?thesis
    proof (cases p)
      case (PlayStarts playing)
      then show ?thesis using assms CanPlay True t
        by (simp add: dispatch_def oncanplayHandler_starts fst_handlers sameControl_def)
    next
      case (PlayRejects err)
      then show ?thesis using assms CanPlay True t
        by (simp add: dispatch_def oncanplayHandler_rejects fst_handlers sameControl_def)
    qed
  qed
next
  case (AnimationFrame playing)
  then show ?thesis using assms by (simp add: dispatch_def fst_handlers sameControl_def)
next
  case Ended
  then show ?thesis using assms by (simp add: dispatch_def onended_def fst_handlers sameControl_def)
next
  case MediaError
  then show ?thesis using assms by (simp add: dispatch_def onerror_def fst_handlers sameControl_def)
next
  case (DataAvailable d)
  then show ?thesis using assms by (simp add: dispatch_def)
qed

lemma awaitSession_sameControl:
  assumes "sameControl (fst x) (fst y)"
  shows "sameControl (fst (awaitSession i f (map (withAudio a) evs) x)) (fst (awaitSession i f evs y))"
  using assms
proof (induction evs arbitrary: x y)
  case Nil
  then show ?case by simp
next
  case (Cons ev evs)
  have st: "settled (fst y) = settled (fst x)" using Cons.prems by (simp add: sameControl_def)
  show ?case
  proof (cases "settled (fst x)")
    case (Some r)
    then show ?thesis using Cons.prems st by simp
  next
    case None
    have "sameControl (fst (dispatch i f (withAudio a ev) x)) (fst (dispatch i f ev y))"
      using dispatch_sameControl [OF Cons.prems, of i f a ev "snd x" "snd y"] by simp
    from Cons.IH [OF this] show ?thesis using None st by simp
  qed
qed

lemma clipOutcome_audioReplaced: "clipOutcome (audioReplaced a e) fs i = clipOutcome e fs i"
proof -
  let ?x = "(newSession, emit (VideoCreated i (name (fs ! i))) (initialApp fs))"
  have "sameControl (fst ?x) (fst ?x)" by (simp add: sameControl_def)
  from awaitSession_sameControl [OF this, of i "fs ! i" a "playback e i"]
  show ?thesis
    by (simp add: clipOutcome_def playClip_def audioReplaced_def sameControl_def)
qed

text \<open>Which way the loop leaves, and with which status, is decided by the cancellations
  and by the way the promises settle.\<close>

lemma afterClip_status: "status (afterClip e fs i s) = clipStatus fs i"
  using playClip_sameRun [of "setStatus (clipStatus fs i) (atBoundary e i s)" i "fs ! i" "playback e i"]
  by (simp add: afterClip_def sameRun_def setStatus_def emit_def)

lemma processClips_control:
  assumes "\<forall>j. clipOutcome e' fs j = clipOutcome e fs j"
    and "\<forall>j. userCancels e' j = userCancels e j"
    and "processingRef s' = processingRef s" and "status s' = status s"
  shows "fst (processClips e' fs i s') = fst (processClips e fs i s)
    \<and> status (snd (processClips e' fs i s')) = status (snd (processClips e fs i s))"
  using assms(3,4)
proof (induction "length fs - i" arbitrary: i s s')
  case 0
  then show ?case by (simp add: processClips_done)
next
  case (Suc n)
  then have lt: "i < length fs" and n: "n = length fs - Suc i" by simp_all
  have b: "processingRef (atBoundary e' i s') = processingRef (atBoundary e i s)"
    "status (atBoundary e' i s') = status (atBoundary e i s)"
    using Suc.prems assms(2) by (simp_all add: atBoundary_def)
  show ?case
  proof (cases "processingRef (atBoundary e i s)")
    case False
    then show ?thesis using lt b by (simp add: processClips_break)
  next
    case True
    then have True': "processingRef (atBoundary e' i s')" using b by simp
    have p: "processingRef (afterClip e' fs i s') = processingRef (afterClip e fs i s)"
      using afterClip_sameRun [of e fs i s] afterClip_sameRun [of e' fs i s'] b by simp
    have q: "status (afterClip e' fs i s') = status (afterClip e fs i s)"
      by (simp add: afterClip_status)
    show ?thesis
      using Suc.hyps(1) [OF n p q] assms(1) q
      by (simp add: processClips_step [OF lt True] processClips_step [OF lt True']
          split: option.splits settlement.splits)
  qed
qed

lemma audioReplaced_fields:
  "canvasMounted (audioReplaced a e) = canvasMounted e"
  "context2d (audioReplaced a e) = context2d e"
  "userCancels (audioReplaced a e) = userCancels e"
  "setupAudio (audioReplaced a e) = setupAudio e"
  "loopStart (audioReplaced a e) = loopStart e"
  "deliverStop (audioReplaced a e) = deliverStop e"
  by (auto simp add: audioReplaced_def setupAudio_def loopStart_def deliverStop_def fun_eq_iff)

lemma startProcessing_guard:
  "files st = [] \<or> \<not> canvasMounted e \<Longrightarrow> startProcessing e st = st"
  by (auto simp add: startProcessing_def)

lemma startProcessing_no_context:
  assumes "files st \<noteq> []" and "canvasMounted e" and "\<not> context2d e"
  shows "startProcessing e st =
           caught (JsError ''Could not get canvas context'') (setupAudio e (beginRun st))"
proof -
  have a: "mediaRecorder (setupAudio e (beginRun st)) = None"
    using setupAudio_fields [of e "beginRun st"] by (simp add: beginRun_def)
  show ?thesis
    using assms a by (simp add: startProcessing_def tryBody_def Let_def catchHandler_caught)
qed

lemma startProcessing_loop:
  assumes "files st \<noteq> []" and "canvasMounted e" and "context2d e"
  shows "startProcessing e st =
     (case fst (processClips e (files st) 0 (loopStart e st)) of
        Normal \<Rightarrow> recorderStop (snd (processClips e (files st) 0 (loopStart e st)))
      | Threw err \<Rightarrow> recorderStop (caught err (snd (processClips e (files st) 0 (loopStart e st))))
      | Hung \<Rightarrow> snd (processClips e (files st) 0 (loopStart e st)))"
proof -
  have rec: "mediaRecorder (snd (processClips e (files st) 0 (loopStart e st))) = Some Recording"
    using processClips_keeps [of e "files st" 0 "loopStart e st"] loopStart_fields [of e st]
    by simp
  show ?thesis
    using assms rec
    by (simp add: startProcessing_def Let_def tryBody_loop catchHandler_caught
        split: completion.splits)
qed

lemma status_after_loop:
  "status (recorderStop s) = status s"
  "status (caught err s) = \<lparr>state = Error, message = ''Error: '' @ errorMessage err, progress = 0\<rparr>"
  "stopQueued (recorderStop s)"
  by (simp_all add: recorderStop_def caught_def setStatus_def emit_def)

lemma status_deliverStop:
  "status (deliverStop e s) =
     (if stopQueued s then \<lparr>state = Completed, message = ''Processing complete!'', progress = 100\<rparr>
      else status s)"
  by (simp add: deliverStop_def onstop_def fold_ondataavailable Let_def setStatus_def emit_def)

lemma startProcessing_audioReplaced:
  "status (startProcessing (audioReplaced a e) st) = status (startProcessing e st)
   \<and> stopQueued (startProcessing (audioReplaced a e) st) = stopQueued (startProcessing e st)"
proof (cases "files st = [] \<or> \<not> canvasMounted e")
  case True
  then show ?thesis
    using startProcessing_guard [of st e] startProcessing_guard [of st "audioReplaced a e"]
    by (simp add: audioReplaced_fields)
next
  case False
  then have ok: "files st \<noteq> []" "canvasMounted e" by simp_all
  then have ok': "files st \<noteq> []" "canvasMounted (audioReplaced a e)"
    by (simp_all add: audioReplaced_fields)
  show ?thesis
  proof (cases "context2d e")
    case False
    then have "\<not> context2d (audioReplaced a e)" by (simp add: audioReplaced_fields)
    from startProcessing_no_context [OF ok' this] startProcessing_no_context [OF ok False]
    show ?thesis by (simp add: audioReplaced_fields)
  next
    case True
    then have True': "context2d (audioReplaced a e)" by (simp add: audioReplaced_fields)
    let ?r = "processClips e (files st) 0 (loopStart e st)"
    let ?r' = "processClips (audioReplaced a e) (files st) 0 (loopStart e st)"
    have c: "fst ?r' = fst ?r \<and> status (snd ?r') = status (snd ?r)"
      by (rule processClips_control) (simp_all add: clipOutcome_audioReplaced audioReplaced_fields)
    have q: "stopQueued (snd ?r') = stopQueued (snd ?r)"
      by (simp add: processClips_stopQueued)
    show ?thesis
      using c q
      by (simp add: startProcessing_loop [OF ok True] startProcessing_loop [OF ok' True']
          audioReplaced_fields status_after_loop split: completion.splits)
  qed
qed

subsection \<open>Rounding to a double\<close>

lemma roundTiesEven_near: "\<bar>of_int (roundTiesEven y) - y\<bar> \<le> 1/2"
proof -
  have "of_int \<lfloor>y\<rfloor> \<le> y" and "y < of_int \<lfloor>y\<rfloor> + 1" by linarith+
  then show ?thesis
    by (auto simp add: roundTiesEven_def Let_def abs_le_iff)
qed

lemma binade_le:
  assumes "0 < x"
  shows "power_int 2 (binade x) \<le> x"
proof -
  obtain p q where pq: "quotient_of x = (p, q)" by (cases "quotient_of x")
  then have q: "0 < q" and x: "x = of_int p / of_int q"
    by (simp_all add: quotient_of_denom_pos quotient_of_div)
  have p: "0 < p" using assms q x by (simp add: zero_less_divide_iff)
  define e where "e = bitlen p - bitlen q"
  show ?thesis
  proof (cases "power_int 2 e \<le> x")
    case True
    then show ?thesis by (simp add: binade_def pq e_def)
  next
    case False
    have bp: "2 ^ nat (bitlen p - 1) \<le> p" using bitlen_bounds [OF p] by simp
    have bq: "q < 2 ^ nat (bitlen q)" using bitlen_bounds [OF q] by simp
    have p1: "1 \<le> bitlen p" using p bitlen_eq_zero_iff [of p] bitlen_nonneg [of p] by linarith
    have q0: "0 \<le> bitlen q" by (rule bitlen_nonneg)
    have lo: "(power_int 2 (bitlen p - 1) :: rat) \<le> of_int p"
    proof -
      have "(of_int (2 ^ nat (bitlen p - 1)) :: rat) \<le> of_int p" using bp by (simp only: of_int_le_iff)
      then show ?thesis using p1 by (simp add: power_int_def)
    qed
    have hi: "(of_int q :: rat) \<le> power_int 2 (bitlen q)"
    proof -
      have "(of_int q :: rat) \<le> of_int (2 ^ nat (bitlen q))" using bq by (simp only: of_int_le_iff)
      then show ?thesis using q0 by (simp add: power_int_def)
    qed
    have eq: "e - 1 = (bitlen p - 1) - bitlen q" by (simp add: e_def)
    have "(power_int 2 (e - 1) :: rat) = power_int 2 ((bitlen p - 1) - bitlen q)"
      by (simp only: eq)
    also have "\<dots> = power_int 2 (bitlen p - 1) / power_int 2 (bitlen q)"
      by (rule power_int_diff) simp
    also have "\<dots> \<le> of_int p / power_int 2 (bitlen q)"
      using lo by (simp add: divide_right_mono)
    also have "\<dots> \<le> of_int p / of_int q"
      using hi p q by (simp add: divide_left_mono)
    finally have "power_int 2 (e - 1) \<le> x" using x by simp
    then show ?thesis using False by (simp add: binade_def pq e_def)
  qed
qed

text \<open>A positive number and its double differ by at most \<open>2\<^sup>-\<^sup>5\<^sup>3\<close> of the number.\<close>

lemma binary64_near:
  assumes "0 < x"
  shows "\<bar>binary64 x - x\<bar> \<le> x / 2 ^ 53"
proof -
  define ulp :: rat where "ulp = power_int 2 (binade x - 52)"
  have up: "0 < ulp" by (simp add: ulp_def zero_less_power_int)
  have b: "binary64 x = of_int (roundTiesEven (x / ulp)) * ulp"
    using assms by (simp add: binary64_def Let_def ulp_def)
  have "of_int (roundTiesEven (x / ulp)) * ulp - x = (of_int (roundTiesEven (x / ulp)) - x / ulp) * ulp"
    using up by (simp add: field_simps)
  then have "\<bar>of_int (roundTiesEven (x / ulp)) * ulp - x\<bar> = \<bar>of_int (roundTiesEven (x / ulp)) - x / ulp\<bar> * ulp"
    using up by (simp only: abs_mult abs_of_pos)
  also have "\<dots> \<le> 1/2 * ulp"
    using roundTiesEven_near [of "x / ulp"] up by (simp add: mult_right_mono)
  also have "\<dots> = power_int 2 (binade x) / 2 ^ 53"
    by (simp add: ulp_def power_int_diff)
  also have "\<dots> \<le> x / 2 ^ 53"
    using binade_le [OF assms] by (simp add: divide_right_mono)
  finally show ?thesis by (simp add: b)
qed

text \<open>The progress of clip \<open>i\<close> of \<open>n\<close> is an integer nearest to \<open>100 i / n\<close>: the two
  roundings of the division and of the multiplication are too small to carry the value
  over a half, as long as there are fewer than \<open>2\<^sup>3\<^sup>2\<close> clips.\<close>

lemma clipProgress_nearest:
  assumes "i < n" and "n < 2 ^ 32"
  shows "\<bar>2 * int n * clipProgress i n - 200 * int i\<bar> \<le> int n"
proof -
  define x :: rat where "x = of_nat i / of_nat n"
  define y1 where "y1 = binary64 x"
  define y2 where "y2 = binary64 (y1 * 100)"
  define p where "p = \<lfloor>y2 + 1/2\<rfloor>"
  have cp: "clipProgress i n = p"
    by (simp add: clipProgress_def js_div_def js_mul_def Math_round_def p_def y2_def y1_def x_def)
  have n: "0 < n" using assms(1) by simp
  show ?thesis
  proof (cases "i = 0")
    case True
    have "\<lfloor>(1 / 2 :: rat)\<rfloor> = 0" by (simp add: floor_eq_iff)
    then have "p = 0" using True by (simp add: p_def y2_def y1_def x_def binary64_def)
    then show ?thesis using True cp by simp
  next
    case False
    then have xp: "0 < x" using n by (simp add: x_def)
    have x1: "x < 1" using assms(1) n by (simp add: x_def)
    define u :: rat where "u = 1 / 2 ^ 53"
    define d where "d = x * u"
    define d1 where "d1 = y1 * u"
    have u: "0 < u" "u < 1" by (simp_all add: u_def)
    have dp: "0 < d" "d < x" "d < u" using xp x1 u by (simp_all add: d_def)
    have "\<bar>y1 - x\<bar> \<le> x / 2 ^ 53" unfolding y1_def by (rule binary64_near [OF xp])
    then have e1: "\<bar>y1 - x\<bar> \<le> d" by (simp add: d_def u_def)
    have y1p: "0 < y1" using e1 dp by linarith
    have y1le: "y1 \<le> 2 * x" using e1 dp by linarith
    have "0 < y1 * 100" using y1p by simp
    then have "\<bar>y2 - y1 * 100\<bar> \<le> y1 * 100 / 2 ^ 53"
      unfolding y2_def by (rule binary64_near)
    then have e2: "\<bar>y2 - y1 * 100\<bar> \<le> 100 * d1" by (simp add: d1_def u_def)
    have "y1 * u \<le> (2 * x) * u" using y1le u(1) by (rule mult_right_mono [OF _ less_imp_le])
    then have d1le: "d1 \<le> 2 * d" by (simp add: d1_def d_def)
    have "\<bar>y2 - 100 * x\<bar> \<le> 300 * d" using e1 e2 d1le by linarith
    then have eps: "\<bar>y2 - 100 * x\<bar> < 300 * u" using dp by linarith
    have fl: "of_int p \<le> y2 + 1/2" "y2 + 1/2 < of_int p + 1" unfolding p_def by linarith+
    have nx: "of_nat n * x = of_nat i" using n by (simp add: x_def)
    have nr: "(of_nat n :: rat) < 2 ^ 32"
    proof -
      have "(of_nat n :: rat) < of_nat (2 ^ 32)" using assms(2) by (simp only: of_nat_less_iff)
      then show ?thesis by simp
    qed
    have np: "(0 :: rat) < of_nat n" using n by simp
    have small: "2 * of_nat n * (300 * u :: rat) < 1"
    proof -
      have "of_nat n * u < 2 ^ 32 * u" using nr u(1) by (rule mult_strict_right_mono)
      moreover have "600 * (2 ^ 32 * u) < 1" by (simp add: u_def)
      ultimately show ?thesis by linarith
    qed
    have up: "of_int p < 100 * x + 1/2 + 300 * u" using fl(1) eps by linarith
    have lo: "100 * x - 1/2 - 300 * u < of_int p" using fl(2) eps by linarith
    have "2 * of_nat n * of_int p < 2 * of_nat n * (100 * x + 1/2 + 300 * u)"
      using up np by (simp add: mult_strict_left_mono)
    also have "\<dots> = 200 * of_nat i + of_nat n + 2 * of_nat n * (300 * u)"
      using nx by (simp add: algebra_simps)
    finally have upr: "2 * of_nat n * of_int p < 200 * of_nat i + of_nat n + (1 :: rat)"
      using small by linarith
    have "2 * of_nat n * (100 * x - 1/2 - 300 * u) < 2 * of_nat n * of_int p"
      using lo np by (simp add: mult_strict_left_mono)
    moreover have "2 * of_nat n * (100 * x - 1/2 - 300 * u)
        = 200 * of_nat i - of_nat n - 2 * of_nat n * (300 * u)"
      using nx by (simp add: algebra_simps)
    ultimately have lor: "200 * of_nat i - of_nat n - (1 :: rat) < 2 * of_nat n * of_int p"
      using small by linarith
    have "(of_int (2 * int n * p) :: rat) < of_int (200 * int i + int n + 1)"
      using upr by simp
    then have a: "2 * int n * p < 200 * int i + int n + 1" by (simp only: of_int_less_iff)
    have "(of_int (200 * int i - int n - 1) :: rat) < of_int (2 * int n * p)"
      using lor by simp
    then have b: "200 * int i - int n - 1 < 2 * int n * p" by (simp only: of_int_less_iff)
    define m where "m = 2 * int n * p"
    have "m < 200 * int i + int n + 1" "200 * int i - int n - 1 < m" using a b by (simp_all add: m_def)
    then have "\<bar>m - 200 * int i\<bar> \<le> int n" by linarith
    then show ?thesis by (simp add: cp m_def)
  qed
qed

lemma clipProgress_tie_rounds_down: "clipProgress 23 40 = 57"
  by code_simp

section \<open>Properties\<close>

subsection \<open>The negotiated type\<close>

text \<open>
  C5. The format negotiator goes through the preference list in its fixed order --
  the combined video and audio codec string, the bare container type, the fallback
  pair -- and returns the first entry the runtime reports supported; when the runtime
  supports none of them it returns the fallback all the same. It is a total function:
  it returns a type of the preference list in every capability environment. (The source
  returns the fallback without asking the runtime about it, which gives the same
  result as asking.)
\<close>

theorem getSupportedMimeType_first_supported:
  "getSupportedMimeType supported = negotiateSpec supported
   \<and> getSupportedMimeType supported \<in> set preferenceList"
  by (simp add: getSupportedMimeType_def negotiateSpec_def preferenceList_def)

subsection \<open>An empty clip list\<close>

text \<open>
  C2, as stated, fails: started with no clips, \<^verbatim>\<open>startProcessing\<close> returns at its
  guard (line 73) and the status stays what it was, here \<open>Idle\<close>; it is not set to
  \<open>Error\<close>.
\<close>

theorem empty_list_counterexample:
  "\<not> state (status (run (browser (\<lambda>i. []) (\<lambda>i. False)) (initialApp []))) = Error"
  by (simp add: run_def startProcessing_def deliverStop_def initialApp_def)

text \<open>
  C2, amended. For every run started with an empty clip list, \<^verbatim>\<open>startProcessing\<close>
  returns at once and changes nothing: status, message, progress and download URL are
  what they were, and no effect is made, so the recorder is neither created nor
  started.
\<close>

theorem empty_list_run_does_nothing:
  assumes "files st = []" and "\<not> stopQueued st"
  shows "startProcessing e st = st \<and> run e st = st"
  using assms by (simp add: run_def startProcessing_def deliverStop_def)

theorem empty_list_run_does_nothing_witness:
  "startProcessing (browser (\<lambda>i. playsThrough 640 480) (\<lambda>i. False)) (initialApp []) = initialApp []
   \<and> run (browser (\<lambda>i. playsThrough 640 480) (\<lambda>i. False)) (initialApp []) = initialApp []
   \<and> trace (initialApp []) = []"
  using empty_list_run_does_nothing [of "initialApp []" "browser (\<lambda>i. playsThrough 640 480) (\<lambda>i. False)"]
  by (simp add: initialApp_def)

subsection \<open>A clip that fails\<close>

text \<open>
  C1, evaluated at a failing input: one clip whose video element fires \<^verbatim>\<open>error\<close>.
  The \<^verbatim>\<open>catch\<close> sets the status to \<open>Error\<close> and then stops the recorder, which is
  still recording; the recorder's stop handler then sets the download URL and the
  status \<open>Completed\<close>. The run ends completed, with an artifact.
\<close>

theorem failing_clip_run_ends_completed:
  "status (run (browser (\<lambda>i. failsToDecode) (\<lambda>i. False)) (initialApp [clipA]))
     = \<lparr>state = Completed, message = ''Processing complete!'', progress = 100\<rparr>
   \<and> downloadUrl (run (browser (\<lambda>i. failsToDecode) (\<lambda>i. False)) (initialApp [clipA]))
     = Some (ObjectURL \<lparr>content = ''tail'', blobType = ''video/mp4''\<rparr>)"
  by code_simp

text \<open>
  C3, evaluated at a failing input: the second of two clips fires \<^verbatim>\<open>error\<close>. The
  handler rejects with the string \<^verbatim>\<open>Error playing file b.mp4\<close>; the \<^verbatim>\<open>catch\<close> reads
  the \<^verbatim>\<open>message\<close> property of that string, which is undefined, and publishes
  \<^verbatim>\<open>Error: Unknown error\<close>: neither the clip's name nor a cause.
\<close>

theorem failing_clip_message_is_unknown_error:
  "status (startProcessing
             (browser (\<lambda>i. if i = 0 then playsThrough 640 480 else failsToDecode) (\<lambda>i. False))
             (initialApp [clipA, clipB]))
     = \<lparr>state = Error, message = ''Error: Unknown error'', progress = 0\<rparr>
   \<and> Rejected 1 (JsString ''Error playing file b.mp4'')
       \<in> set (trace (startProcessing
             (browser (\<lambda>i. if i = 0 then playsThrough 640 480 else failsToDecode) (\<lambda>i. False))
             (initialApp [clipA, clipB])))"
  by code_simp

subsection \<open>Cancellation\<close>





subsection \<open>Sessions in order\<close>



subsection \<open>The first clip sizes the canvas\<close>




subsection \<open>Audio wiring\<close>

text \<open>
  C9. When the audio source of a clip cannot be created or cannot be connected, the
  handler logs a warning and goes on to play the clip: with playback started, the
  effects of the handler are the warning and then the frame drawn, with no audio
  connected. The failure never decides how a session settles or how the run ends:
  whatever the audio wiring of the clips is replaced by (failures by successes, or
  successes by failures), every promise settles the same way, and the status at the end
  of \<^verbatim>\<open>startProcessing\<close> and at the end of the run is the same.
\<close>

theorem audio_failure_is_logged_and_local:
  "clipOutcome (audioReplaced a e) fs i = clipOutcome e fs i
   \<and> status (startProcessing (audioReplaced a e) st) = status (startProcessing e st)
   \<and> status (run (audioReplaced a e) st) = status (run e st)
   \<and> (oncanplay se \<longrightarrow>
        trace (snd (oncanplayHandler i (CreateSourceThrows v) (PlayStarts playing) (se, s)))
          = trace s @ ConsoleWarn ''Audio source creation failed:'' v
                      # (if playing then [FrameDrawn i (canvas s)] else [])
        \<and> trace (snd (oncanplayHandler i (ConnectThrows v) (PlayStarts playing) (se, s)))
          = trace s @ ConsoleWarn ''Audio source creation failed:'' v
                      # (if playing then [FrameDrawn i (canvas s)] else []))"
proof -
  have run: "status (run (audioReplaced a e) st) = status (run e st)"
    using startProcessing_audioReplaced [of a e st]
    by (simp add: run_def status_deliverStop audioReplaced_fields)
  have log: "oncanplay se \<longrightarrow>
        trace (snd (oncanplayHandler i (CreateSourceThrows v) (PlayStarts playing) (se, s)))
          = trace s @ ConsoleWarn ''Audio source creation failed:'' v
                      # (if playing then [FrameDrawn i (canvas s)] else [])
        \<and> trace (snd (oncanplayHandler i (ConnectThrows v) (PlayStarts playing) (se, s)))
          = trace s @ ConsoleWarn ''Audio source creation failed:'' v
                      # (if playing then [FrameDrawn i (canvas s)] else [])"
    by (simp add: oncanplayHandler_starts trace_handlers canvas_handlers)
  show ?thesis
    using clipOutcome_audioReplaced [of a e fs i] startProcessing_audioReplaced [of a e st] run log
    by simp
qed

theorem audio_failure_is_logged_and_local_witness:
  "clipOutcome (audioReplaced (CreateSourceThrows (JsError ''InvalidStateError''))
                  (browser (\<lambda>i. playsThrough 640 480) (\<lambda>i. False))) [clipA, clipB] 1
     = Some Fulfilled
   \<and> status (run (audioReplaced (CreateSourceThrows (JsError ''InvalidStateError''))
                    (browser (\<lambda>i. playsThrough 640 480) (\<lambda>i. False))) (initialApp [clipA, clipB]))
     = \<lparr>state = Completed, message = ''Processing complete!'', progress = 100\<rparr>
   \<and> trace (snd (oncanplayHandler 1 (CreateSourceThrows (JsError ''InvalidStateError''))
                   (PlayStarts True) (newSession, initialApp [clipA, clipB])))
     = [ConsoleWarn ''Audio source creation failed:'' (JsError ''InvalidStateError''),
        FrameDrawn 1 (300, 150)]"
proof -
  let ?a = "CreateSourceThrows (JsError ''InvalidStateError'')"
  let ?e = "browser (\<lambda>i. playsThrough 640 480) (\<lambda>i. False)"
  let ?st = "initialApp [clipA, clipB]"
  have o: "clipOutcome ?e [clipA, clipB] 1 = Some Fulfilled" by code_simp
  have r: "status (run ?e ?st) = \<lparr>state = Completed, message = ''Processing complete!'', progress = 100\<rparr>"
    by code_simp
  have c: "oncanplay newSession" by (simp add: newSession_def)
  have t: "trace ?st = []" "canvas ?st = (300, 150)" by (simp_all add: initialApp_def)
  show ?thesis
    using audio_failure_is_logged_and_local [of ?a ?e "[clipA, clipB]" 1 ?st newSession
        "JsError ''InvalidStateError''" True ?st] o r c t
    by simp
qed

subsection \<open>Progress\<close>

text \<open>
  C4, as stated, fails: the source rounds to the nearest integer (\<^verbatim>\<open>Math.round\<close>), it
  does not round down. At the third of three clips the progress is 67, and
  \<open>\<lfloor>2 / 3 * 100\<rfloor>\<close> is 66.
\<close>

theorem progress_floor_counterexample:
  "progress (clipStatus [clipA, clipB, clipC] 2) = 67 \<and> \<lfloor>2 / 3 * 100 :: rat\<rfloor> = 66"
  by code_simp

text \<open>
  C4, amended. For every run over a list of \<open>N\<close> clips (fewer than \<open>2\<^sup>3\<^sup>2\<close>, as every
  JavaScript array has) and every clip index \<open>i < N\<close>, the status published at the start
  boundary of clip \<open>i\<close>, which stays until the session of the clip is over, has the
  progress \<^verbatim>\<open>Math.round((i / N) * 100)\<close>: an integer nearest to \<open>100 i / N\<close>, between 0
  and 100. (Where \<open>100 i / N\<close> lies halfway between two integers, the rounding of the
  double arithmetic decides which of the two it is: 57 for \<open>i = 23\<close>, \<open>N = 40\<close>.)
\<close>

theorem progress_is_nearest_percent:
  assumes "i < length fs" and "length fs < 2 ^ 32"
  shows "status (afterClip e fs i s) = clipStatus fs i
    \<and> \<bar>2 * int (length fs) * progress (clipStatus fs i) - 200 * int i\<bar> \<le> int (length fs)
    \<and> 0 \<le> progress (clipStatus fs i) \<and> progress (clipStatus fs i) \<le> 100"
proof -
  define n where "n = int (length fs)"
  define p where "p = progress (clipStatus fs i)"
  have p: "p = clipProgress i (length fs)" by (simp add: p_def clipStatus_def)
  have near: "\<bar>2 * n * p - 200 * int i\<bar> \<le> n"
    using clipProgress_nearest [OF assms] by (simp add: p n_def)
  have n: "0 < n" "int i + 1 \<le> n" using assms(1) unfolding n_def by linarith+
  have "2 * n * p < 2 * n * 101" using near n by linarith
  then have "p < 101" using n(1) by (simp add: mult_less_cancel_left_pos)
  moreover have "2 * n * (- 1) < 2 * n * p" using near n by linarith
  then have "- 1 < p" using n(1) by (simp only: mult_less_cancel_left_pos)
  ultimately show ?thesis using near by (simp add: afterClip_status p_def n_def)
qed

theorem progress_is_nearest_percent_witness:
  "progress (clipStatus [clipA, clipB, clipC] 2) = 67
   \<and> \<bar>2 * 3 * progress (clipStatus [clipA, clipB, clipC] 2) - 200 * 2\<bar> \<le> (3 :: int)
   \<and> status (afterClip (browser (\<lambda>i. playsThrough 640 480) (\<lambda>i. False)) [clipA, clipB, clipC] 2
                (initialApp [clipA, clipB, clipC]))
       = \<lparr>state = Processing, message = ''Processing clip 3/3: c.mp4'', progress = 67\<rparr>"
proof -
  have a: "2 < length [clipA, clipB, clipC]" and b: "length [clipA, clipB, clipC] < 2 ^ 32"
    by simp_all
  have c: "clipStatus [clipA, clipB, clipC] 2
      = \<lparr>state = Processing, message = ''Processing clip 3/3: c.mp4'', progress = 67\<rparr>"
    by code_simp
  show ?thesis
    using progress_is_nearest_percent [OF a b, of "browser (\<lambda>i. playsThrough 640 480) (\<lambda>i. False)"
        "initialApp [clipA, clipB, clipC]"] c
    by simp
qed

end
